theory Spec2Isabelle
  imports Main
begin

section \<open>The seat-selection and booking wizard (component SeatSelection of App.js)\<close>

subsection \<open>Data\<close>

text \<open>
  A seat of the \<open>seats\<close> prop, as the handlers read it: \<open>seat.seat_number\<close> and
  \<open>seat.is_booked\<close>. Seat numbers are compared with \<open>includes\<close> and \<open>!==\<close>, which
  agree with HOL equality on strings.
\<close>

type_synonym seat_id = string

record seat =
  seat_number :: seat_id
  is_booked :: bool

text \<open>
  A passenger object is a JavaScript object whose property values are strings (the
  literal \<open>{ name: '', age: '', gender: 'male' }\<close>, then \<open>e.target.value\<close> and the
  value of the select): a map from property name to value. An absent property reads
  as \<open>undefined\<close>, here \<open>None\<close>.
\<close>

type_synonym passenger = "string \<rightharpoonup> string"

text \<open>
  An element of the \<open>passengerDetails\<close> array. A JavaScript array may hold an empty
  slot (written past the end leaves holes) or the value \<open>undefined\<close> (what a spread
  copy makes of a hole); both read as \<open>undefined\<close>, and \<open>some\<close> skips the former only.
\<close>

datatype slot = Hole | Undefined | Obj passenger

text \<open>The values of \<open>currentStep\<close>: \<open>'seats'\<close>, \<open>'passengers'\<close>, \<open>'payment'\<close>.\<close>

datatype step = Seats | Passengers | Payment

text \<open>The four \<open>useState\<close> cells of the component.\<close>

record wizard =
  selectedSeats :: "seat_id list"
  passengerDetails :: "slot list"
  currentStep :: step
  isLoading :: bool

definition init_wizard :: wizard where
  "init_wizard =
     \<lparr>selectedSeats = [], passengerDetails = [], currentStep = Seats, isLoading = False\<rparr>"

text \<open>The \<open>bus\<close> prop, with the fields the wizard computes with.\<close>

record bus =
  schedule_id :: string
  price :: nat

text \<open>The body of the POST to \<open>/book-tickets\<close>.\<close>

record booking_request =
  req_schedule_id :: string
  req_seats :: "seat_id list"
  req_passenger_details :: "slot list"

text \<open>\<open>response.data.booking\<close>; the wizard hands it on without reading it.\<close>

record booking =
  booking_id :: string
  booking_status :: string

text \<open>
  What a handler does besides setting state: a toast (title, description, variant), the
  POST, and the call of the \<open>onBookingComplete\<close> prop.
\<close>

datatype effect =
    Toast string "string option" "string option"
  | Post booking_request
  | OnBookingComplete booking

datatype js_error = TypeError

subsection \<open>JavaScript array and object primitives used by the handlers\<close>

text \<open>\<open>xs[i]\<close>: \<open>undefined\<close> (here \<open>None\<close>) out of range, at a hole and at \<open>undefined\<close>.\<close>

definition array_get :: "slot list \<Rightarrow> nat \<Rightarrow> passenger option" where
  "array_get xs i =
     (if i < length xs then (case xs ! i of Obj p \<Rightarrow> Some p | _ \<Rightarrow> None) else None)"

text \<open>\<open>[...xs]\<close>: the iterator yields \<open>undefined\<close> for a hole.\<close>

definition spread_array :: "slot list \<Rightarrow> slot list" where
  "spread_array xs = map (\<lambda>s. case s of Hole \<Rightarrow> Undefined | _ \<Rightarrow> s) xs"

text \<open>\<open>xs[i] = v\<close>: in range it overwrites; past the end the array grows, with holes.\<close>

definition array_set :: "slot list \<Rightarrow> nat \<Rightarrow> slot \<Rightarrow> slot list" where
  "array_set xs i v =
     (if i < length xs then xs[i := v] else xs @ replicate (i - length xs) Hole @ [v])"

text \<open>\<open>{ ...x }\<close>: spreading \<open>undefined\<close> gives the empty object.\<close>

definition spread_obj :: "passenger option \<Rightarrow> passenger" where
  "spread_obj x = (case x of Some p \<Rightarrow> p | None \<Rightarrow> Map.empty)"

text \<open>\<open>!v\<close> for a property value: true for \<open>undefined\<close> and for the empty string.\<close>

definition falsy :: "string option \<Rightarrow> bool" where
  "falsy v = (case v of None \<Rightarrow> True | Some s \<Rightarrow> s = [])"

definition default_passenger :: passenger where
  "default_passenger = [''name'' \<mapsto> [], ''age'' \<mapsto> [], ''gender'' \<mapsto> ''male'']"

subsection \<open>handleSeatClick\<close>

text \<open>
  \<open>newSelectedSeats.map((seatNum, index) => passengerDetails[index] || {...})\<close>:
  an object is truthy, \<open>undefined\<close> is not.
\<close>

definition sync_roster :: "seat_id list \<Rightarrow> slot list \<Rightarrow> slot list" where
  "sync_roster newSelectedSeats old =
     map (\<lambda>(seatNum, index).
            case array_get old index of Some p \<Rightarrow> Obj p | None \<Rightarrow> Obj default_passenger)
         (zip newSelectedSeats [0 ..< length newSelectedSeats])"

definition capacity_toast :: effect where
  "capacity_toast = Toast ''Maximum 6 seats can be selected'' None (Some ''destructive'')"

definition handleSeatClick :: "seat \<Rightarrow> wizard \<Rightarrow> effect list \<times> wizard" where
  "handleSeatClick seat st =
     (if is_booked seat then ([], st)
      else if seat_number seat \<in> set (selectedSeats st) then
        (let newSelectedSeats = filter (\<lambda>s. s \<noteq> seat_number seat) (selectedSeats st)
         in ([], st\<lparr>selectedSeats := newSelectedSeats,
                    passengerDetails := sync_roster newSelectedSeats (passengerDetails st)\<rparr>))
      else if length (selectedSeats st) \<ge> 6 then ([capacity_toast], st)
      else
        (let newSelectedSeats = selectedSeats st @ [seat_number seat]
         in ([], st\<lparr>selectedSeats := newSelectedSeats,
                    passengerDetails := sync_roster newSelectedSeats (passengerDetails st)\<rparr>)))"

text \<open>A sequence of seat clicks, each on the state the previous one left.\<close>

fun toggles :: "seat list \<Rightarrow> wizard \<Rightarrow> wizard" where
  "toggles [] st = st"
| "toggles (seat # rest) st = toggles rest (snd (handleSeatClick seat st))"

subsection \<open>handlePassengerDetailChange\<close>

definition handlePassengerDetailChange ::
    "nat \<Rightarrow> string \<Rightarrow> string \<Rightarrow> wizard \<Rightarrow> effect list \<times> wizard" where
  "handlePassengerDetailChange index field val st =
     (let updated = spread_array (passengerDetails st);
          updated' = array_set updated index
                       (Obj ((spread_obj (array_get updated index))(field \<mapsto> val)))
      in ([], st\<lparr>passengerDetails := updated'\<rparr>))"

subsection \<open>handleBooking\<close>

text \<open>
  The handler is asynchronous. Its first part runs up to the \<open>await\<close>: the login check,
  \<open>setIsLoading(true)\<close> and the POST. When the POST settles, one of the two
  continuations runs (the \<open>try\<close> tail or the \<open>catch\<close>), each followed by the
  \<open>finally\<close> block.
\<close>

definition handleBooking :: "string option \<Rightarrow> bus \<Rightarrow> wizard \<Rightarrow> effect list \<times> wizard" where
  "handleBooking user b st =
     (case user of
        None \<Rightarrow> ([Toast ''Please login to book tickets'' None (Some ''destructive'')], st)
      | Some u \<Rightarrow>
          ([Post \<lparr>req_schedule_id = schedule_id b,
                  req_seats = selectedSeats st,
                  req_passenger_details = passengerDetails st\<rparr>],
           st\<lparr>isLoading := True\<rparr>))"

definition handleBooking_fulfilled :: "booking \<Rightarrow> wizard \<Rightarrow> effect list \<times> wizard" where
  "handleBooking_fulfilled bk st =
     ([Toast ''Booking confirmed successfully!'' None None, OnBookingComplete bk],
      st\<lparr>isLoading := False\<rparr>)"

text \<open>
  \<open>detail\<close> is \<open>error.response?.data?.detail\<close>, \<open>None\<close> when it is absent;
  \<open>||\<close> replaces an absent or empty one.
\<close>

definition handleBooking_rejected :: "string option \<Rightarrow> wizard \<Rightarrow> effect list \<times> wizard" where
  "handleBooking_rejected detail st =
     ([Toast ''Booking failed''
         (Some (case detail of
                  None \<Rightarrow> ''Something went wrong''
                | Some d \<Rightarrow> if d = [] then ''Something went wrong'' else d))
         (Some ''destructive'')],
      st\<lparr>isLoading := False\<rparr>)"

subsection \<open>What the rendered controls let through\<close>

text \<open>
  \<open>passengerDetails.some(p => !p.name || !p.age)\<close>, the \<open>disabled\<close> prop of the
  "Continue to Payment" button and (after the empty-selection test) of the Payment tab.
  \<open>some\<close> skips a hole, stops at the first hit, and reading \<open>p.name\<close> of
  \<open>undefined\<close> throws.
\<close>

fun some_incomplete :: "slot list \<Rightarrow> js_error + bool" where
  "some_incomplete [] = Inr False"
| "some_incomplete (Hole # rest) = some_incomplete rest"
| "some_incomplete (Undefined # rest) = Inl TypeError"
| "some_incomplete (Obj p # rest) =
     (if falsy (p ''name'') \<or> falsy (p ''age'') then Inr True else some_incomplete rest)"

definition continue_to_payment_disabled :: "wizard \<Rightarrow> js_error + bool" where
  "continue_to_payment_disabled st = some_incomplete (passengerDetails st)"

definition payment_tab_disabled :: "wizard \<Rightarrow> js_error + bool" where
  "payment_tab_disabled st =
     (if selectedSeats st = [] then Inr True else some_incomplete (passengerDetails st))"

text \<open>
  A click on a control: a disabled control does not call its \<open>onClick\<close>; an enabled
  one runs \<open>setCurrentStep('payment')\<close>.
\<close>

definition click_continue_to_payment :: "wizard \<Rightarrow> js_error + wizard" where
  "click_continue_to_payment st =
     (case continue_to_payment_disabled st of
        Inl e \<Rightarrow> Inl e
      | Inr disabled \<Rightarrow> Inr (if disabled then st else st\<lparr>currentStep := Payment\<rparr>))"

definition click_payment_tab :: "wizard \<Rightarrow> js_error + wizard" where
  "click_payment_tab st =
     (case payment_tab_disabled st of
        Inl e \<Rightarrow> Inl e
      | Inr disabled \<Rightarrow> Inr (if disabled then st else st\<lparr>currentStep := Payment\<rparr>))"

text \<open>The pay button: \<open>onClick={handleBooking} disabled={isLoading}\<close>.\<close>

definition click_pay_button :: "string option \<Rightarrow> bus \<Rightarrow> wizard \<Rightarrow> effect list \<times> wizard" where
  "click_pay_button user b st = (if isLoading st then ([], st) else handleBooking user b st)"

subsection \<open>A session: the wizard and its outstanding requests\<close>

fun is_post :: "effect \<Rightarrow> bool" where
  "is_post (Post r) = True"
| "is_post e = False"

definition posts :: "effect list \<Rightarrow> nat" where
  "posts effs = length (filter is_post effs)"

record session =
  wiz :: wizard
  in_flight :: nat

datatype event =
    SeatClicked seat
  | DetailChanged nat string string
  | StepChanged step
  | PayClicked
  | PostFulfilled booking
  | PostRejected "string option"

text \<open>
  One event of the user interface or of the network, on the state the previous event
  left (the component is rendered again between two events). The number of POSTs in
  flight grows by the POSTs the event's handler issues, and a POST that settles leaves
  it.
\<close>

fun ui_step :: "string option \<Rightarrow> bus \<Rightarrow> event \<Rightarrow> session \<Rightarrow> session" where
  "ui_step user b (SeatClicked seat) s = s\<lparr>wiz := snd (handleSeatClick seat (wiz s))\<rparr>"
| "ui_step user b (DetailChanged index field val) s =
     s\<lparr>wiz := snd (handlePassengerDetailChange index field val (wiz s))\<rparr>"
| "ui_step user b (StepChanged t) s = s\<lparr>wiz := (wiz s)\<lparr>currentStep := t\<rparr>\<rparr>"
| "ui_step user b PayClicked s =
     \<lparr>wiz = snd (click_pay_button user b (wiz s)),
      in_flight = in_flight s + posts (fst (click_pay_button user b (wiz s)))\<rparr>"
| "ui_step user b (PostFulfilled bk) s =
     (if in_flight s = 0 then s
      else \<lparr>wiz = snd (handleBooking_fulfilled bk (wiz s)), in_flight = in_flight s - 1\<rparr>)"
| "ui_step user b (PostRejected detail) s =
     (if in_flight s = 0 then s
      else \<lparr>wiz = snd (handleBooking_rejected detail (wiz s)), in_flight = in_flight s - 1\<rparr>)"

fun ui_run :: "string option \<Rightarrow> bus \<Rightarrow> event list \<Rightarrow> session \<Rightarrow> session" where
  "ui_run user b [] s = s"
| "ui_run user b (e # es) s = ui_run user b es (ui_step user b e s)"

definition init_session :: session where
  "init_session = \<lparr>wiz = init_wizard, in_flight = 0\<rparr>"

subsection \<open>The specification's completeness predicate\<close>

text \<open>
  The specification's words, for comparison with \<open>some_incomplete\<close>: an entry is
  valid when its name is non-empty and its age is a parseable positive number, read
  here as a decimal numeral that is not zero.
\<close>

definition spec_parseable_positive_age :: "string \<Rightarrow> bool" where
  "spec_parseable_positive_age s =
     (s \<noteq> [] \<and> list_all (\<lambda>c. c \<in> set ''0123456789'') s \<and> list_ex (\<lambda>c. c \<noteq> CHR ''0'') s)"

definition spec_entry_valid :: "passenger \<Rightarrow> bool" where
  "spec_entry_valid p =
     (\<not> falsy (p ''name'') \<and>
      (case p ''age'' of None \<Rightarrow> False | Some a \<Rightarrow> spec_parseable_positive_age a))"

subsection \<open>Example data\<close>

definition free_seat :: "seat_id \<Rightarrow> seat" where
  "free_seat n = \<lparr>seat_number = n, is_booked = False\<rparr>"

definition six_seats :: "seat list" where
  "six_seats = map free_seat [''A1'', ''A2'', ''A3'', ''A4'', ''B1'', ''B2'']"

definition alice :: passenger where
  "alice = [''name'' \<mapsto> ''Alice'', ''age'' \<mapsto> ''30'', ''gender'' \<mapsto> ''female'']"

definition bob :: passenger where
  "bob = [''name'' \<mapsto> ''Bob'', ''age'' \<mapsto> ''41'', ''gender'' \<mapsto> ''male'']"

text \<open>Seats A1 and A2 selected in this order, Alice entered for A1 and Bob for A2.\<close>

definition two_selected :: wizard where
  "two_selected =
     \<lparr>selectedSeats = [''A1'', ''A2''], passengerDetails = [Obj alice, Obj bob],
      currentStep = Seats, isLoading = False\<rparr>"

text \<open>
  Two seats selected and both entries filled in through the rendered inputs, with the
  ages 0 and -5 typed into the age fields.
\<close>

definition nonpositive_ages :: wizard where
  "nonpositive_ages =
     \<lparr>selectedSeats = [''A1'', ''A2''],
      passengerDetails =
        [Obj [''name'' \<mapsto> ''Bob'', ''age'' \<mapsto> ''0'', ''gender'' \<mapsto> ''male''],
         Obj [''name'' \<mapsto> ''Eve'', ''age'' \<mapsto> ''-5'', ''gender'' \<mapsto> ''female'']],
      currentStep = Passengers, isLoading = False\<rparr>"

definition demo_bus :: bus where
  "demo_bus = \<lparr>schedule_id = ''S1'', price = 500\<rparr>"

section \<open>Properties\<close>

subsection \<open>Auxiliary facts\<close>

lemma sync_roster_map:
  "sync_roster new old =
     map (\<lambda>index. case array_get old index of Some p \<Rightarrow> Obj p | None \<Rightarrow> Obj default_passenger)
         [0 ..< length new]"
  unfolding sync_roster_def
  by (rule nth_equalityI) simp_all

lemma length_sync_roster: "length (sync_roster new old) = length new"
  by (simp add: sync_roster_def)

lemma array_get_sync_roster:
  "array_get (sync_roster new old) i =
     (if i < length new
      then Some (case array_get old i of Some p \<Rightarrow> p | None \<Rightarrow> default_passenger)
      else None)"
  by (simp add: sync_roster_map array_get_def split: option.split)

lemma array_get_objs:
  "array_get (map Obj ps) i = (if i < length ps then Some (ps ! i) else None)"
  by (simp add: array_get_def)

lemma sync_roster_objs:
  "sync_roster new (map Obj ps) =
     map Obj (take (length new) ps @ replicate (length new - length ps) default_passenger)"
  by (rule nth_equalityI) (auto simp add: sync_roster_map array_get_objs nth_append)

lemma handleSeatClick_capacity:
  "length (selectedSeats st) \<le> 6 \<Longrightarrow> length (selectedSeats (snd (handleSeatClick seat st))) \<le> 6"
proof -
  assume a: "length (selectedSeats st) \<le> 6"
  have "length (filter (\<lambda>s. s \<noteq> seat_number seat) (selectedSeats st)) \<le> length (selectedSeats st)"
    by (rule length_filter_le)
  with a have "length (filter (\<lambda>s. s \<noteq> seat_number seat) (selectedSeats st)) \<le> 6"
    by (rule le_trans[rotated])
  with a show ?thesis
    by (simp add: handleSeatClick_def Let_def)
qed

lemma toggles_capacity:
  "length (selectedSeats st) \<le> 6 \<Longrightarrow> length (selectedSeats (toggles seats st)) \<le> 6"
  by (induction seats arbitrary: st) (simp_all add: handleSeatClick_capacity)

lemma handleSeatClick_aligned:
  "length (passengerDetails st) = length (selectedSeats st) \<Longrightarrow>
   length (passengerDetails (snd (handleSeatClick seat st)))
     = length (selectedSeats (snd (handleSeatClick seat st)))"
  by (simp add: handleSeatClick_def Let_def length_sync_roster)

lemma toggles_aligned:
  "length (passengerDetails st) = length (selectedSeats st) \<Longrightarrow>
   length (passengerDetails (toggles seats st)) = length (selectedSeats (toggles seats st))"
  by (induction seats arbitrary: st) (simp_all add: handleSeatClick_aligned)

lemma six_selected:
  "selectedSeats (toggles six_seats init_wizard) = [''A1'', ''A2'', ''A3'', ''A4'', ''B1'', ''B2'']"
  by (simp add: six_seats_def free_seat_def init_wizard_def handleSeatClick_def Let_def)

lemma some_incomplete_objs:
  "some_incomplete (map Obj ps) = Inr (list_ex (\<lambda>p. falsy (p ''name'') \<or> falsy (p ''age'')) ps)"
  by (induction ps) simp_all

lemma spec_age_nonempty: "spec_parseable_positive_age a \<Longrightarrow> \<not> falsy (Some a)"
  by (simp add: spec_parseable_positive_age_def falsy_def)

lemma spec_entry_valid_complete:
  "spec_entry_valid p \<Longrightarrow> \<not> falsy (p ''name'') \<and> \<not> falsy (p ''age'')"
  by (cases "p ''age''") (simp_all add: spec_entry_valid_def spec_age_nonempty)

lemma spec_valid_none_incomplete:
  "list_all spec_entry_valid ps \<Longrightarrow> \<not> list_ex (\<lambda>p. falsy (p ''name'') \<or> falsy (p ''age'')) ps"
  by (induction ps) (auto dest: spec_entry_valid_complete)

lemma length_spread_array: "length (spread_array xs) = length xs"
  by (simp add: spread_array_def)

lemma array_get_spread_array: "array_get (spread_array xs) i = array_get xs i"
  by (simp add: array_get_def spread_array_def split: slot.split)

lemma spread_array_objs: "spread_array (map Obj ps) = map Obj ps"
  by (simp add: spread_array_def)

lemma length_array_set:
  "length (array_set xs i v) = (if i < length xs then length xs else Suc i)"
  by (simp add: array_set_def)

lemma array_get_array_set_same: "array_get (array_set xs i (Obj p)) i = Some p"
  by (simp add: array_get_def array_set_def nth_append)

lemma array_get_array_set_other_inbounds:
  "i < length xs \<Longrightarrow> j \<noteq> i \<Longrightarrow> array_get (array_set xs i v) j = array_get xs j"
  by (simp add: array_get_def array_set_def)

lemma array_get_array_set_below:
  "j < length xs \<Longrightarrow> length xs \<le> i \<Longrightarrow> array_get (array_set xs i v) j = array_get xs j"
  by (simp add: array_get_def array_set_def nth_append)

lemma array_set_past_end_nth:
  "length xs \<le> i \<Longrightarrow> array_set xs i v ! i = v"
  by (simp add: array_set_def nth_append)

lemma array_set_past_end_hole:
  "length xs \<le> j \<Longrightarrow> j < i \<Longrightarrow> array_set xs i v ! j = Hole"
  by (auto simp add: array_set_def nth_append)

lemma passengerDetails_edit:
  "passengerDetails (snd (handlePassengerDetailChange index field val st))
     = array_set (spread_array (passengerDetails st)) index
         (Obj ((spread_obj (array_get (passengerDetails st) index))(field \<mapsto> val)))"
  by (simp add: handlePassengerDetailChange_def Let_def array_get_spread_array)

lemma handleSeatClick_isLoading: "isLoading (snd (handleSeatClick seat st)) = isLoading st"
  by (simp add: handleSeatClick_def Let_def)

lemma handlePassengerDetailChange_isLoading:
  "isLoading (snd (handlePassengerDetailChange index field val st)) = isLoading st"
  by (simp add: handlePassengerDetailChange_def Let_def)

lemma ui_step_in_flight:
  "in_flight s = (if isLoading (wiz s) then 1 else 0) \<Longrightarrow>
   in_flight (ui_step user b e s) = (if isLoading (wiz (ui_step user b e s)) then 1 else 0)"
  by (cases e)
     (simp_all add: handleSeatClick_isLoading handlePassengerDetailChange_isLoading
        click_pay_button_def handleBooking_def handleBooking_fulfilled_def
        handleBooking_rejected_def posts_def split: option.split)

lemma ui_run_in_flight:
  "in_flight s = (if isLoading (wiz s) then 1 else 0) \<Longrightarrow>
   in_flight (ui_run user b es s) = (if isLoading (wiz (ui_run user b es s)) then 1 else 0)"
  by (induction es arbitrary: s) (simp_all add: ui_step_in_flight)

lemma filter_absent: "x \<notin> set xs \<Longrightarrow> filter (\<lambda>s. s \<noteq> x) xs = xs"
  by (induction xs) auto

lemma click_twice_unselected:
  assumes "\<not> is_booked seat" and "seat_number seat \<notin> set (selectedSeats st)"
  shows "snd (handleSeatClick seat (snd (handleSeatClick seat st))) =
           (if length (selectedSeats st) \<ge> 6 then st
            else st\<lparr>passengerDetails :=
                      sync_roster (selectedSeats st)
                        (sync_roster (selectedSeats st @ [seat_number seat]) (passengerDetails st))\<rparr>)"
  using assms by (simp add: handleSeatClick_def Let_def filter_absent)

lemma click_twice_selected:
  assumes "\<not> is_booked seat" and "seat_number seat \<in> set (selectedSeats st)"
    and "length (selectedSeats st) \<le> 6"
  shows "selectedSeats (snd (handleSeatClick seat (snd (handleSeatClick seat st))))
           = filter (\<lambda>s. s \<noteq> seat_number seat) (selectedSeats st) @ [seat_number seat]"
proof -
  let ?f = "filter (\<lambda>s. s \<noteq> seat_number seat) (selectedSeats st)"
  have "length ?f < length (selectedSeats st)"
    using assms(2) by (rule length_filter_less) simp
  with assms(3) have short: "\<not> 6 \<le> length ?f" by simp
  have notin: "seat_number seat \<notin> set ?f" by simp
  have first: "snd (handleSeatClick seat st)
      = st\<lparr>selectedSeats := ?f, passengerDetails := sync_roster ?f (passengerDetails st)\<rparr>"
    using assms(1,2) by (simp add: handleSeatClick_def Let_def)
  show ?thesis
    unfolding first using assms(1) short notin
    by (simp add: handleSeatClick_def Let_def)
qed

subsection \<open>Deselecting a seat and the roster\<close>

text \<open>
  C1, evaluated on the code. With A1 and A2 selected, Alice entered for A1 and Bob
  for A2, the click that deselects A1 leaves A2 selected and the roster \<open>[Alice]\<close>:
  the entry at index 0, now shown and sent for seat A2, is the one entered for A1,
  and Bob's entry is gone. The roster is rebuilt by position
  (\<open>passengerDetails[index]\<close>, see \<open>sync_roster_objs\<close>), not by seat.
\<close>

theorem deselect_first_seat_shifts_details:
  "handleSeatClick (free_seat ''A1'') two_selected
     = ([], two_selected\<lparr>selectedSeats := [''A2''], passengerDetails := [Obj alice]\<rparr>) \<and>
   array_get (passengerDetails (snd (handleSeatClick (free_seat ''A1'') two_selected))) 0 = Some alice \<and>
   array_get (passengerDetails two_selected) 1 = Some bob \<and>
   alice ''name'' = Some ''Alice'' \<and> bob ''name'' = Some ''Bob''"
  by (simp add: handleSeatClick_def free_seat_def two_selected_def Let_def sync_roster_def
        array_get_def alice_def bob_def)

subsection \<open>Submitting while a submit is outstanding\<close>

text \<open>
  C2 (as the code has it). While \<open>isLoading\<close> is set the pay button is disabled: a
  click on it issues no request and changes nothing. A submit by a logged-in user sets
  \<open>isLoading\<close> and issues exactly one POST. So along every sequence of events of
  the rendered controls and of the network, each on the state the previous one left,
  at most one POST is in flight. The refusal is the button's; \<open>handleBooking\<close>
  itself has no guard.
\<close>

theorem submit_gated_by_button:
  "(isLoading st \<longrightarrow> click_pay_button user b st = ([], st)) \<and>
   isLoading (snd (handleBooking (Some u) b st)) \<and>
   posts (fst (handleBooking (Some u) b st)) = 1 \<and>
   in_flight (ui_run user b events init_session) \<le> 1"
proof (intro conjI impI)
  assume "isLoading st"
  then show "click_pay_button user b st = ([], st)"
    by (simp add: click_pay_button_def)
next
  show "isLoading (snd (handleBooking (Some u) b st))"
    and "posts (fst (handleBooking (Some u) b st)) = 1"
    by (simp_all add: handleBooking_def posts_def)
next
  have "in_flight init_session = (if isLoading (wiz init_session) then 1 else 0)"
    by (simp add: init_session_def init_wizard_def)
  then have "in_flight (ui_run user b events init_session)
      = (if isLoading (wiz (ui_run user b events init_session)) then 1 else 0)"
    by (rule ui_run_in_flight)
  then show "in_flight (ui_run user b events init_session) \<le> 1"
    by simp
qed

theorem submit_gated_by_button_witness:
  "isLoading (two_selected\<lparr>isLoading := True\<rparr>) \<and>
   click_pay_button (Some ''u'') demo_bus (two_selected\<lparr>isLoading := True\<rparr>)
     = ([], two_selected\<lparr>isLoading := True\<rparr>) \<and>
   in_flight (ui_run (Some ''u'') demo_bus [SeatClicked (free_seat ''A1''), PayClicked, PayClicked]
                init_session) \<le> 1"
  using submit_gated_by_button
          [of "two_selected\<lparr>isLoading := True\<rparr>" "Some ''u''" demo_bus "''u''"
              "[SeatClicked (free_seat ''A1''), PayClicked, PayClicked]"]
  by simp

text \<open>
  C2 (as stated) fails: \<open>handleBooking\<close>, called again while the first submit is
  outstanding (\<open>isLoading\<close> set), issues a second POST.
\<close>

theorem handleBooking_reentrant_posts_again:
  "isLoading (snd (handleBooking (Some ''u'') demo_bus two_selected)) \<and>
   handleBooking (Some ''u'') demo_bus (snd (handleBooking (Some ''u'') demo_bus two_selected))
     = ([Post \<lparr>req_schedule_id = ''S1'', req_seats = [''A1'', ''A2''],
               req_passenger_details = [Obj alice, Obj bob]\<rparr>],
        two_selected\<lparr>isLoading := True\<rparr>)"
  by (simp add: handleBooking_def two_selected_def demo_bus_def)

subsection \<open>The gate before the payment step\<close>

text \<open>
  What the gate tests. For a roster of passenger objects, the "Continue to Payment"
  button and the Payment tab are disabled, so the step stays as it is, whenever some
  entry has an empty or absent name or an empty or absent age. The button is enabled
  once every entry has a non-empty name and a non-empty age (the tab too, when a seat
  is selected), hence once every entry is valid in the specification's sense. The
  \<open>gender\<close> property plays no part.
\<close>

theorem payment_gate:
  "(list_ex (\<lambda>p. falsy (p ''name'') \<or> falsy (p ''age'')) ps \<longrightarrow>
      click_continue_to_payment (st\<lparr>passengerDetails := map Obj ps\<rparr>)
        = Inr (st\<lparr>passengerDetails := map Obj ps\<rparr>) \<and>
      click_payment_tab (st\<lparr>passengerDetails := map Obj ps\<rparr>)
        = Inr (st\<lparr>passengerDetails := map Obj ps\<rparr>)) \<and>
   (list_all (\<lambda>p. \<not> falsy (p ''name'') \<and> \<not> falsy (p ''age'')) ps \<longrightarrow>
      click_continue_to_payment (st\<lparr>passengerDetails := map Obj ps\<rparr>)
        = Inr (st\<lparr>passengerDetails := map Obj ps, currentStep := Payment\<rparr>) \<and>
      (selectedSeats st \<noteq> [] \<longrightarrow>
         click_payment_tab (st\<lparr>passengerDetails := map Obj ps\<rparr>)
           = Inr (st\<lparr>passengerDetails := map Obj ps, currentStep := Payment\<rparr>))) \<and>
   (list_all spec_entry_valid ps \<longrightarrow>
      click_continue_to_payment (st\<lparr>passengerDetails := map Obj ps\<rparr>)
        = Inr (st\<lparr>passengerDetails := map Obj ps, currentStep := Payment\<rparr>)) \<and>
   some_incomplete (map Obj (map (\<lambda>p. p(''gender'' := g)) ps)) = some_incomplete (map Obj ps)"
proof (intro conjI impI)
  assume "list_ex (\<lambda>p. falsy (p ''name'') \<or> falsy (p ''age'')) ps"
  then show "click_continue_to_payment (st\<lparr>passengerDetails := map Obj ps\<rparr>)
        = Inr (st\<lparr>passengerDetails := map Obj ps\<rparr>)"
    and "click_payment_tab (st\<lparr>passengerDetails := map Obj ps\<rparr>)
        = Inr (st\<lparr>passengerDetails := map Obj ps\<rparr>)"
    by (simp_all add: click_continue_to_payment_def continue_to_payment_disabled_def
          click_payment_tab_def payment_tab_disabled_def some_incomplete_objs)
next
  assume "list_all (\<lambda>p. \<not> falsy (p ''name'') \<and> \<not> falsy (p ''age'')) ps"
  then have none: "\<not> list_ex (\<lambda>p. falsy (p ''name'') \<or> falsy (p ''age'')) ps"
    by (simp add: list_all_iff list_ex_iff)
  then show "click_continue_to_payment (st\<lparr>passengerDetails := map Obj ps\<rparr>)
        = Inr (st\<lparr>passengerDetails := map Obj ps, currentStep := Payment\<rparr>)"
    by (simp add: click_continue_to_payment_def continue_to_payment_disabled_def
          some_incomplete_objs)
  assume "selectedSeats st \<noteq> []"
  with none show "click_payment_tab (st\<lparr>passengerDetails := map Obj ps\<rparr>)
           = Inr (st\<lparr>passengerDetails := map Obj ps, currentStep := Payment\<rparr>)"
    by (simp add: click_payment_tab_def payment_tab_disabled_def some_incomplete_objs)
next
  assume "list_all spec_entry_valid ps"
  then have "\<not> list_ex (\<lambda>p. falsy (p ''name'') \<or> falsy (p ''age'')) ps"
    by (rule spec_valid_none_incomplete)
  then show "click_continue_to_payment (st\<lparr>passengerDetails := map Obj ps\<rparr>)
        = Inr (st\<lparr>passengerDetails := map Obj ps, currentStep := Payment\<rparr>)"
    by (simp add: click_continue_to_payment_def continue_to_payment_disabled_def
          some_incomplete_objs)
next
  show "some_incomplete (map Obj (map (\<lambda>p. p(''gender'' := g)) ps)) = some_incomplete (map Obj ps)"
    by (induction ps) simp_all
qed

theorem payment_gate_witness:
  "list_ex (\<lambda>p. falsy (p ''name'') \<or> falsy (p ''age'')) [alice, default_passenger] \<and>
   click_continue_to_payment (two_selected\<lparr>passengerDetails := map Obj [alice, default_passenger]\<rparr>)
     = Inr (two_selected\<lparr>passengerDetails := map Obj [alice, default_passenger]\<rparr>) \<and>
   list_all spec_entry_valid [alice, bob] \<and>
   list_all (\<lambda>p. \<not> falsy (p ''name'') \<and> \<not> falsy (p ''age'')) [alice, bob] \<and>
   selectedSeats two_selected \<noteq> [] \<and>
   click_continue_to_payment (two_selected\<lparr>passengerDetails := map Obj [alice, bob]\<rparr>)
     = Inr (two_selected\<lparr>passengerDetails := map Obj [alice, bob], currentStep := Payment\<rparr>) \<and>
   click_payment_tab (two_selected\<lparr>passengerDetails := map Obj [alice, bob]\<rparr>)
     = Inr (two_selected\<lparr>passengerDetails := map Obj [alice, bob], currentStep := Payment\<rparr>)"
proof -
  have a: "list_ex (\<lambda>p. falsy (p ''name'') \<or> falsy (p ''age'')) [alice, default_passenger]"
    by (simp add: default_passenger_def falsy_def)
  have b: "list_all spec_entry_valid [alice, bob]"
    by (simp add: spec_entry_valid_def spec_parseable_positive_age_def alice_def bob_def falsy_def)
  have c: "list_all (\<lambda>p. \<not> falsy (p ''name'') \<and> \<not> falsy (p ''age'')) [alice, bob]"
    by (simp add: alice_def bob_def falsy_def)
  have d: "selectedSeats two_selected \<noteq> []"
    by (simp add: two_selected_def)
  show ?thesis
    using a b c d payment_gate [of "[alice, default_passenger]" two_selected None]
      payment_gate [of "[alice, bob]" two_selected None]
    by blast
qed

text \<open>
  C3, evaluated on the code. The age input declares \<open>type="number" min="1" max="100"
  required\<close>, but no form enforces these, and the gate tests only that the age is not
  empty. With the ages \<open>0\<close> and \<open>-5\<close> entered, neither a parseable positive age,
  the "Continue to Payment" button is enabled and moves the wizard to the payment
  step, and the submit then posts the roster with these ages. The claim has the
  transition refused.
\<close>

theorem payment_gate_accepts_nonpositive_age:
  "spread_obj (array_get (passengerDetails nonpositive_ages) 0) ''age'' = Some ''0'' \<and>
   spread_obj (array_get (passengerDetails nonpositive_ages) 1) ''age'' = Some ''-5'' \<and>
   \<not> spec_parseable_positive_age ''0'' \<and>
   \<not> spec_parseable_positive_age ''-5'' \<and>
   continue_to_payment_disabled nonpositive_ages = Inr False \<and>
   payment_tab_disabled nonpositive_ages = Inr False \<and>
   click_continue_to_payment nonpositive_ages = Inr (nonpositive_ages\<lparr>currentStep := Payment\<rparr>) \<and>
   fst (click_pay_button (Some ''u'') demo_bus (nonpositive_ages\<lparr>currentStep := Payment\<rparr>))
     = [Post \<lparr>req_schedule_id = ''S1'', req_seats = [''A1'', ''A2''],
               req_passenger_details = passengerDetails nonpositive_ages\<rparr>]"
  by (simp add: nonpositive_ages_def demo_bus_def spec_parseable_positive_age_def
        click_continue_to_payment_def continue_to_payment_disabled_def payment_tab_disabled_def
        click_pay_button_def handleBooking_def falsy_def array_get_def spread_obj_def)

subsection \<open>Editing a passenger entry: bounds\<close>

text \<open>
  C4 (as the code has it). \<open>handlePassengerDetailChange\<close> reports nothing for any
  index. For an index within the roster it keeps the length, sets the named property
  of that entry and leaves what every other index reads as it was. For an index at or
  past the end it grows the roster to \<open>index + 1\<close> entries: the new last entry
  holds only the named property, the slots between are holes and the old entries read
  as before.
\<close>

theorem detail_change_bounds:
  "fst (handlePassengerDetailChange index field val st) = [] \<and>
   (index < length (passengerDetails st) \<longrightarrow>
      length (passengerDetails (snd (handlePassengerDetailChange index field val st)))
        = length (passengerDetails st) \<and>
      array_get (passengerDetails (snd (handlePassengerDetailChange index field val st))) index
        = Some ((spread_obj (array_get (passengerDetails st) index))(field \<mapsto> val)) \<and>
      (\<forall>j. j \<noteq> index \<longrightarrow>
         array_get (passengerDetails (snd (handlePassengerDetailChange index field val st))) j
           = array_get (passengerDetails st) j)) \<and>
   (length (passengerDetails st) \<le> index \<longrightarrow>
      length (passengerDetails (snd (handlePassengerDetailChange index field val st))) = Suc index \<and>
      passengerDetails (snd (handlePassengerDetailChange index field val st)) ! index
        = Obj [field \<mapsto> val] \<and>
      (\<forall>j. j < length (passengerDetails st) \<longrightarrow>
         array_get (passengerDetails (snd (handlePassengerDetailChange index field val st))) j
           = array_get (passengerDetails st) j) \<and>
      (\<forall>j. length (passengerDetails st) \<le> j \<and> j < index \<longrightarrow>
         passengerDetails (snd (handlePassengerDetailChange index field val st)) ! j = Hole))"
proof (intro conjI allI impI)
  show "fst (handlePassengerDetailChange index field val st) = []"
    by (simp add: handlePassengerDetailChange_def Let_def)
next
  assume inb: "index < length (passengerDetails st)"
  then show "length (passengerDetails (snd (handlePassengerDetailChange index field val st)))
        = length (passengerDetails st)"
    by (simp add: passengerDetails_edit length_array_set length_spread_array)
  show "array_get (passengerDetails (snd (handlePassengerDetailChange index field val st))) index
        = Some ((spread_obj (array_get (passengerDetails st) index))(field \<mapsto> val))"
    by (simp add: passengerDetails_edit array_get_array_set_same)
  fix j :: nat assume "j \<noteq> index"
  with inb show "array_get (passengerDetails (snd (handlePassengerDetailChange index field val st))) j
           = array_get (passengerDetails st) j"
    by (simp add: passengerDetails_edit array_get_array_set_other_inbounds
          length_spread_array array_get_spread_array)
next
  assume oob: "length (passengerDetails st) \<le> index"
  then show "length (passengerDetails (snd (handlePassengerDetailChange index field val st))) = Suc index"
    by (simp add: passengerDetails_edit length_array_set length_spread_array)
  from oob show "passengerDetails (snd (handlePassengerDetailChange index field val st)) ! index
        = Obj [field \<mapsto> val]"
    by (simp add: passengerDetails_edit array_set_past_end_nth length_spread_array
          array_get_def spread_obj_def)
  { fix j assume "j < length (passengerDetails st)"
    with oob show "array_get (passengerDetails (snd (handlePassengerDetailChange index field val st))) j
           = array_get (passengerDetails st) j"
      by (simp add: passengerDetails_edit array_get_array_set_below length_spread_array
            array_get_spread_array) }
  { fix j assume "length (passengerDetails st) \<le> j \<and> j < index"
    then show "passengerDetails (snd (handlePassengerDetailChange index field val st)) ! j = Hole"
      by (simp add: passengerDetails_edit array_set_past_end_hole length_spread_array) }
qed

theorem detail_change_bounds_witness:
  "(0::nat) < length (passengerDetails two_selected) \<and>
   array_get (passengerDetails (snd (handlePassengerDetailChange 0 ''name'' ''Ann'' two_selected))) 0
     = Some (alice(''name'' \<mapsto> ''Ann'')) \<and>
   array_get (passengerDetails (snd (handlePassengerDetailChange 0 ''name'' ''Ann'' two_selected))) 1
     = Some bob \<and>
   length (passengerDetails two_selected) \<le> 3 \<and>
   length (passengerDetails (snd (handlePassengerDetailChange 3 ''name'' ''Eve'' two_selected))) = 4 \<and>
   passengerDetails (snd (handlePassengerDetailChange 3 ''name'' ''Eve'' two_selected)) ! 3
     = Obj [''name'' \<mapsto> ''Eve''] \<and>
   passengerDetails (snd (handlePassengerDetailChange 3 ''name'' ''Eve'' two_selected)) ! 2 = Hole \<and>
   array_get (passengerDetails (snd (handlePassengerDetailChange 3 ''name'' ''Eve'' two_selected))) 1
     = Some bob"
proof -
  have g: "array_get (passengerDetails two_selected) 0 = Some alice"
          "array_get (passengerDetails two_selected) 1 = Some bob"
          "length (passengerDetails two_selected) = 2"
    by (simp_all add: two_selected_def array_get_def)
  from detail_change_bounds [of 0 "''name''" "''Ann''" two_selected]
       detail_change_bounds [of 3 "''name''" "''Eve''" two_selected] g
  show ?thesis
    by (simp add: spread_obj_def)
qed

text \<open>
  C4 (as stated) fails: index 2 is out of the bounds of a roster of two entries; the
  edit raises nothing and the roster has a third entry afterwards.
\<close>

theorem detail_change_out_of_range_extends:
  "handlePassengerDetailChange 2 ''name'' ''Eve'' two_selected
     = ([], two_selected\<lparr>passengerDetails := [Obj alice, Obj bob, Obj [''name'' \<mapsto> ''Eve'']]\<rparr>) \<and>
   passengerDetails (snd (handlePassengerDetailChange 2 ''name'' ''Eve'' two_selected))
     \<noteq> passengerDetails two_selected"
  by (simp add: handlePassengerDetailChange_def Let_def two_selected_def spread_array_def
        array_set_def array_get_def spread_obj_def)

subsection \<open>Capacity of the selection\<close>

text \<open>
  C5. After any sequence of seat clicks from the empty wizard, at most six seats are
  selected. A click on a seat that is not booked and not selected, while six seats are
  selected, changes nothing and shows the toast "Maximum 6 seats can be selected".
  (A booked seat never reaches the capacity test: see C7.)
\<close>

theorem selection_capacity:
  "length (selectedSeats (toggles seats init_wizard)) \<le> 6 \<and>
   (\<not> is_booked seat \<and> seat_number seat \<notin> set (selectedSeats st) \<and>
      length (selectedSeats st) = 6 \<longrightarrow>
    handleSeatClick seat st = ([capacity_toast], st))"
proof
  show "length (selectedSeats (toggles seats init_wizard)) \<le> 6"
    by (rule toggles_capacity) (simp add: init_wizard_def)
  show "\<not> is_booked seat \<and> seat_number seat \<notin> set (selectedSeats st) \<and>
      length (selectedSeats st) = 6 \<longrightarrow>
    handleSeatClick seat st = ([capacity_toast], st)"
    by (simp add: handleSeatClick_def)
qed

theorem selection_capacity_witness:
  "length (selectedSeats (toggles (six_seats @ [free_seat ''B3'']) init_wizard)) \<le> 6 \<and>
   \<not> is_booked (free_seat ''B3'') \<and>
   ''B3'' \<notin> set (selectedSeats (toggles six_seats init_wizard)) \<and>
   length (selectedSeats (toggles six_seats init_wizard)) = 6 \<and>
   handleSeatClick (free_seat ''B3'') (toggles six_seats init_wizard)
     = ([capacity_toast], toggles six_seats init_wizard)"
  using selection_capacity [of "six_seats @ [free_seat ''B3'']" "free_seat ''B3''"
                               "toggles six_seats init_wizard"]
  by (simp add: six_selected free_seat_def)

subsection \<open>Roster and selection have the same length\<close>

text \<open>
  C6. After any sequence of seat clicks from the empty wizard, the passenger roster has
  as many entries as there are selected seats.
\<close>

theorem roster_aligned_with_selection:
  "length (passengerDetails (toggles seats init_wizard))
     = length (selectedSeats (toggles seats init_wizard))"
  by (rule toggles_aligned) (simp add: init_wizard_def)

theorem roster_aligned_with_selection_witness:
  "length (passengerDetails (toggles (six_seats @ [free_seat ''A2'']) init_wizard)) = 5 \<and>
   length (selectedSeats (toggles (six_seats @ [free_seat ''A2'']) init_wizard)) = 5"
proof -
  have "toggles (six_seats @ [free_seat ''A2'']) init_wizard = toggles [free_seat ''A2''] (toggles six_seats init_wizard)"
    by (simp add: six_seats_def)
  hence "selectedSeats (toggles (six_seats @ [free_seat ''A2'']) init_wizard) = [''A1'', ''A3'', ''A4'', ''B1'', ''B2'']"
    by (simp add: six_selected free_seat_def handleSeatClick_def Let_def)
  thus ?thesis
    using roster_aligned_with_selection [of "six_seats @ [free_seat ''A2'']"] by simp
qed

subsection \<open>Booked seats\<close>

text \<open>
  C7 (as the code has it). Clicking a seat whose \<open>is_booked\<close> flag is set changes
  neither the selection nor the roster nor any other state, whatever the size of the
  selection; the handler returns at once and shows no toast.
\<close>

theorem handleSeatClick_booked_silent:
  "is_booked seat \<Longrightarrow> handleSeatClick seat st = ([], st)"
  by (simp add: handleSeatClick_def)

theorem handleSeatClick_booked_silent_witness:
  "is_booked \<lparr>seat_number = ''A3'', is_booked = True\<rparr> \<and>
   handleSeatClick \<lparr>seat_number = ''A3'', is_booked = True\<rparr>
       (init_wizard\<lparr>selectedSeats := [''A1''], passengerDetails := [Obj default_passenger]\<rparr>)
     = ([], init_wizard\<lparr>selectedSeats := [''A1''], passengerDetails := [Obj default_passenger]\<rparr>)"
  using handleSeatClick_booked_silent
          [of "\<lparr>seat_number = ''A3'', is_booked = True\<rparr>"
              "init_wizard\<lparr>selectedSeats := [''A1''], passengerDetails := [Obj default_passenger]\<rparr>"]
  by simp

text \<open>
  C7 (as stated) fails: the click on the booked seat A3 emits nothing, so no
  unavailable-seat warning is surfaced.
\<close>

theorem handleSeatClick_booked_no_warning:
  "fst (handleSeatClick \<lparr>seat_number = ''A3'', is_booked = True\<rparr>
          (init_wizard\<lparr>selectedSeats := [''A1''], passengerDetails := [Obj default_passenger]\<rparr>))
     = []"
  by (simp add: handleSeatClick_def)

subsection \<open>A failed booking\<close>

text \<open>
  C8. A submit whose request fails (the first part of \<open>handleBooking\<close>, then its
  \<open>catch\<close> and \<open>finally\<close> blocks) leaves the selected seats, the passenger roster
  and the current step as they were before the submit, in every wizard state.
\<close>

theorem failed_booking_keeps_data:
  "selectedSeats (snd (handleBooking_rejected detail (snd (handleBooking user b st)))) = selectedSeats st \<and>
   passengerDetails (snd (handleBooking_rejected detail (snd (handleBooking user b st)))) = passengerDetails st \<and>
   currentStep (snd (handleBooking_rejected detail (snd (handleBooking user b st)))) = currentStep st"
  by (simp add: handleBooking_def handleBooking_rejected_def split: option.split)

theorem failed_booking_keeps_data_witness:
  "selectedSeats (snd (handleBooking_rejected (Some ''Seat already booked'')
      (snd (handleBooking (Some ''u'') demo_bus two_selected)))) = [''A1'', ''A2''] \<and>
   passengerDetails (snd (handleBooking_rejected (Some ''Seat already booked'')
      (snd (handleBooking (Some ''u'') demo_bus two_selected)))) = [Obj alice, Obj bob] \<and>
   currentStep (snd (handleBooking_rejected (Some ''Seat already booked'')
      (snd (handleBooking (Some ''u'') demo_bus two_selected)))) = Seats"
  using failed_booking_keeps_data [of "Some ''Seat already booked''" "Some ''u''" demo_bus two_selected]
  by (simp add: two_selected_def)

subsection \<open>Clicking a seat twice\<close>

text \<open>
  C9 (as the code has it). Let the seat be not booked. If it was not selected, two
  clicks in succession give back the selected seats in their order, every entry that
  the roster held at a position below the size of the selection, and the whole roster
  when it was a list of objects as long as the selection. If it was selected (and at
  most six seats are), two clicks leave the same seats selected, with the clicked seat
  moved to the end of the sequence.
\<close>

theorem toggle_twice:
  "\<not> is_booked seat \<Longrightarrow>
   (seat_number seat \<notin> set (selectedSeats st) \<longrightarrow>
      selectedSeats (snd (handleSeatClick seat (snd (handleSeatClick seat st)))) = selectedSeats st \<and>
      (\<forall>i p. i < length (selectedSeats st) \<and> array_get (passengerDetails st) i = Some p \<longrightarrow>
         array_get (passengerDetails (snd (handleSeatClick seat (snd (handleSeatClick seat st))))) i
           = Some p) \<and>
      (\<forall>ps. passengerDetails st = map Obj ps \<and> length ps = length (selectedSeats st) \<longrightarrow>
         passengerDetails (snd (handleSeatClick seat (snd (handleSeatClick seat st))))
           = passengerDetails st)) \<and>
   (seat_number seat \<in> set (selectedSeats st) \<and> length (selectedSeats st) \<le> 6 \<longrightarrow>
      selectedSeats (snd (handleSeatClick seat (snd (handleSeatClick seat st))))
        = filter (\<lambda>s. s \<noteq> seat_number seat) (selectedSeats st) @ [seat_number seat] \<and>
      set (selectedSeats (snd (handleSeatClick seat (snd (handleSeatClick seat st)))))
        = set (selectedSeats st))"
proof (intro conjI allI impI)
  assume nb: "\<not> is_booked seat" and new: "seat_number seat \<notin> set (selectedSeats st)"
  note tw = click_twice_unselected [OF nb new]
  show "selectedSeats (snd (handleSeatClick seat (snd (handleSeatClick seat st)))) = selectedSeats st"
    by (simp add: tw)
  { fix i p
    assume "i < length (selectedSeats st) \<and> array_get (passengerDetails st) i = Some p"
    then show "array_get (passengerDetails (snd (handleSeatClick seat (snd (handleSeatClick seat st))))) i
           = Some p"
      by (simp add: tw array_get_sync_roster) }
  { fix ps
    assume "passengerDetails st = map Obj ps \<and> length ps = length (selectedSeats st)"
    then have ps: "passengerDetails st = map Obj ps" and len: "length ps = length (selectedSeats st)"
      by simp_all
    have "sync_roster (selectedSeats st @ [seat_number seat]) (map Obj ps)
        = map Obj (ps @ [default_passenger])"
      by (simp add: sync_roster_objs len)
    moreover have "sync_roster (selectedSeats st) (map Obj (ps @ [default_passenger])) = map Obj ps"
      unfolding sync_roster_objs by (simp add: len)
    ultimately show "passengerDetails (snd (handleSeatClick seat (snd (handleSeatClick seat st))))
           = passengerDetails st"
      by (simp add: tw ps) }
next
  assume nb: "\<not> is_booked seat"
    and sel: "seat_number seat \<in> set (selectedSeats st) \<and> length (selectedSeats st) \<le> 6"
  then have eq: "selectedSeats (snd (handleSeatClick seat (snd (handleSeatClick seat st))))
        = filter (\<lambda>s. s \<noteq> seat_number seat) (selectedSeats st) @ [seat_number seat]"
    by (simp add: click_twice_selected)
  then show "selectedSeats (snd (handleSeatClick seat (snd (handleSeatClick seat st))))
        = filter (\<lambda>s. s \<noteq> seat_number seat) (selectedSeats st) @ [seat_number seat]" .
  from sel show "set (selectedSeats (snd (handleSeatClick seat (snd (handleSeatClick seat st)))))
        = set (selectedSeats st)"
    unfolding eq by auto
qed

theorem toggle_twice_witness:
  "\<not> is_booked (free_seat ''A3'') \<and> ''A3'' \<notin> set (selectedSeats two_selected) \<and>
   selectedSeats (snd (handleSeatClick (free_seat ''A3'') (snd (handleSeatClick (free_seat ''A3'') two_selected))))
     = [''A1'', ''A2''] \<and>
   passengerDetails (snd (handleSeatClick (free_seat ''A3'') (snd (handleSeatClick (free_seat ''A3'') two_selected))))
     = [Obj alice, Obj bob] \<and>
   \<not> is_booked (free_seat ''A1'') \<and> ''A1'' \<in> set (selectedSeats two_selected) \<and>
   length (selectedSeats two_selected) \<le> 6 \<and>
   selectedSeats (snd (handleSeatClick (free_seat ''A1'') (snd (handleSeatClick (free_seat ''A1'') two_selected))))
     = [''A2'', ''A1'']"
proof -
  have a: "\<not> is_booked (free_seat ''A3'')" "\<not> is_booked (free_seat ''A1'')"
    by (simp_all add: free_seat_def)
  have b: "seat_number (free_seat ''A3'') \<notin> set (selectedSeats two_selected)"
          "seat_number (free_seat ''A1'') \<in> set (selectedSeats two_selected)"
          "length (selectedSeats two_selected) \<le> 6"
          "passengerDetails two_selected = map Obj [alice, bob]"
          "length [alice, bob] = length (selectedSeats two_selected)"
    by (simp_all add: free_seat_def two_selected_def)
  note t3 = toggle_twice [OF a(1), of two_selected]
  note t1 = toggle_twice [OF a(2), of two_selected]
  from t3 b have
    "selectedSeats (snd (handleSeatClick (free_seat ''A3'') (snd (handleSeatClick (free_seat ''A3'') two_selected))))
       = selectedSeats two_selected"
    "passengerDetails (snd (handleSeatClick (free_seat ''A3'') (snd (handleSeatClick (free_seat ''A3'') two_selected))))
       = passengerDetails two_selected"
    by blast+
  moreover from t1 b have
    "selectedSeats (snd (handleSeatClick (free_seat ''A1'') (snd (handleSeatClick (free_seat ''A1'') two_selected))))
       = filter (\<lambda>s. s \<noteq> seat_number (free_seat ''A1'')) (selectedSeats two_selected)
           @ [seat_number (free_seat ''A1'')]"
    by blast
  ultimately show ?thesis
    using a by (simp add: free_seat_def two_selected_def)
qed

text \<open>
  C9 (as stated) fails: with \<open>[A1, A2]\<close> selected, two clicks on A1 give
  \<open>[A2, A1]\<close>, another ordered sequence.
\<close>

theorem toggle_twice_reorders:
  "\<not> is_booked (free_seat ''A1'') \<and>
   selectedSeats two_selected = [''A1'', ''A2''] \<and>
   selectedSeats (snd (handleSeatClick (free_seat ''A1'') (snd (handleSeatClick (free_seat ''A1'') two_selected))))
     = [''A2'', ''A1''] \<and>
   selectedSeats (snd (handleSeatClick (free_seat ''A1'') (snd (handleSeatClick (free_seat ''A1'') two_selected))))
     \<noteq> selectedSeats two_selected"
  by (simp add: handleSeatClick_def free_seat_def two_selected_def Let_def)

subsection \<open>Editing a passenger entry: frame\<close>

text \<open>
  C10. An edit at an index within the roster leaves the selected seats, the current
  step and \<open>isLoading\<close> as they were and keeps the roster's length; the entry at
  the index becomes the old one with the named property set to the value (all its other
  properties as before), and every other index reads as before. On a roster of objects
  the new roster is the old list with that one entry replaced.
\<close>

theorem detail_change_frame:
  "index < length (passengerDetails st) \<Longrightarrow>
   selectedSeats (snd (handlePassengerDetailChange index field val st)) = selectedSeats st \<and>
   currentStep (snd (handlePassengerDetailChange index field val st)) = currentStep st \<and>
   isLoading (snd (handlePassengerDetailChange index field val st)) = isLoading st \<and>
   length (passengerDetails (snd (handlePassengerDetailChange index field val st)))
     = length (passengerDetails st) \<and>
   array_get (passengerDetails (snd (handlePassengerDetailChange index field val st))) index
     = Some ((spread_obj (array_get (passengerDetails st) index))(field \<mapsto> val)) \<and>
   (\<forall>j. j \<noteq> index \<longrightarrow>
      array_get (passengerDetails (snd (handlePassengerDetailChange index field val st))) j
        = array_get (passengerDetails st) j) \<and>
   (\<forall>ps. passengerDetails st = map Obj ps \<longrightarrow>
      passengerDetails (snd (handlePassengerDetailChange index field val st))
        = map Obj (ps[index := (ps ! index)(field \<mapsto> val)]))"
proof (intro conjI allI impI)
  assume inb: "index < length (passengerDetails st)"
  show "selectedSeats (snd (handlePassengerDetailChange index field val st)) = selectedSeats st"
    and "currentStep (snd (handlePassengerDetailChange index field val st)) = currentStep st"
    and "isLoading (snd (handlePassengerDetailChange index field val st)) = isLoading st"
    by (simp_all add: handlePassengerDetailChange_def Let_def)
  from inb show "length (passengerDetails (snd (handlePassengerDetailChange index field val st)))
     = length (passengerDetails st)"
    by (simp add: passengerDetails_edit length_array_set length_spread_array)
  show "array_get (passengerDetails (snd (handlePassengerDetailChange index field val st))) index
     = Some ((spread_obj (array_get (passengerDetails st) index))(field \<mapsto> val))"
    by (simp add: passengerDetails_edit array_get_array_set_same)
  { fix j :: nat assume "j \<noteq> index"
    with inb show "array_get (passengerDetails (snd (handlePassengerDetailChange index field val st))) j
        = array_get (passengerDetails st) j"
      by (simp add: passengerDetails_edit array_get_array_set_other_inbounds
            length_spread_array array_get_spread_array) }
  { fix ps assume ps: "passengerDetails st = map Obj ps"
    with inb have "index < length ps" by simp
    with ps show "passengerDetails (snd (handlePassengerDetailChange index field val st))
        = map Obj (ps[index := (ps ! index)(field \<mapsto> val)])"
      by (simp add: passengerDetails_edit spread_array_objs array_set_def array_get_def
            spread_obj_def map_update) }
qed

theorem detail_change_frame_witness:
  "(1::nat) < length (passengerDetails two_selected) \<and>
   selectedSeats (snd (handlePassengerDetailChange 1 ''age'' ''42'' two_selected)) = [''A1'', ''A2''] \<and>
   currentStep (snd (handlePassengerDetailChange 1 ''age'' ''42'' two_selected)) = Seats \<and>
   passengerDetails (snd (handlePassengerDetailChange 1 ''age'' ''42'' two_selected))
     = [Obj alice, Obj (bob(''age'' \<mapsto> ''42''))]"
proof -
  have h: "(1::nat) < length (passengerDetails two_selected)"
    by (simp add: two_selected_def)
  have p: "passengerDetails two_selected = map Obj [alice, bob]"
    by (simp add: two_selected_def)
  note t = detail_change_frame [OF h, of "''age''" "''42''"]
  from t p have "passengerDetails (snd (handlePassengerDetailChange 1 ''age'' ''42'' two_selected))
      = map Obj ([alice, bob][1 := ([alice, bob] ! 1)(''age'' \<mapsto> ''42'')])"
    by blast
  moreover from t have
    "selectedSeats (snd (handlePassengerDetailChange 1 ''age'' ''42'' two_selected))
       = selectedSeats two_selected"
    "currentStep (snd (handlePassengerDetailChange 1 ''age'' ''42'' two_selected))
       = currentStep two_selected"
    by blast+
  ultimately show ?thesis
    using h by (simp add: two_selected_def)
qed

end
